theory Spec2Isabelle
  imports Complex_Main "HOL-Library.Log_Nat" "HOL-Library.Word"
begin

section \<open>JavaScript values used by picture-compressor\<close>

text \<open>
  The values that flow through \<^verbatim>\<open>src/index.js\<close> are JavaScript numbers and
  \<^verbatim>\<open>undefined\<close> (an omitted option). A number is an IEEE 754 binary64 value: a
  rational, NaN or an infinity. The result of an addition, a multiplication and a
  division is the exact result rounded to the nearest double, ties to even, with gradual
  underflow and with overflow to an infinity. The sign of zero is not represented.
\<close>

datatype jsval = Undefined | NaN | NegInf | PosInf | Num rat

subsection \<open>Rounding to the nearest double\<close>

text \<open>The integer \<open>e\<close> with \<open>2\<^sup>e \<le> x < 2\<^sup>e\<^sup>+\<^sup>1\<close>, for a positive \<open>x\<close>.\<close>

definition floor_log2 :: "rat \<Rightarrow> int" where
  "floor_log2 x =
     (let e = bitlen (fst (quotient_of x)) - bitlen (snd (quotient_of x))
      in if 2 powi e \<le> x then e else e - 1)"

text \<open>The least exponent of a normal double.\<close>

definition min_exponent :: int where
  "min_exponent = - 1022"

text \<open>
  The spacing of the doubles around \<open>x\<close>: 52 fraction bits below the exponent of
  \<open>x\<close>, and the spacing of the subnormal numbers below the least normal exponent.
\<close>

definition quantum :: "rat \<Rightarrow> rat" where
  "quantum x = 2 powi (max (floor_log2 \<bar>x\<bar>) min_exponent - 52)"

definition min_quantum :: rat where
  "min_quantum = 2 powi (min_exponent - 52)"

definition round_half_even :: "rat \<Rightarrow> int" where
  "round_half_even y =
     (let f = \<lfloor>y\<rfloor>; d = y - of_int f
      in if d < 1 / 2 then f else if 1 / 2 < d then f + 1
         else if even f then f else f + 1)"

definition round_double :: "rat \<Rightarrow> rat" where
  "round_double x =
     (if x = 0 then 0 else of_int (round_half_even (x / quantum x)) * quantum x)"

text \<open>A rounded magnitude of \<open>2\<^sup>1\<^sup>0\<^sup>2\<^sup>4\<close> or more is an infinity.\<close>

definition overflow_threshold :: rat where
  "overflow_threshold = 2 ^ 1024"

definition to_double :: "rat \<Rightarrow> jsval" where
  "to_double x =
     (let r = round_double x
      in if overflow_threshold \<le> r then PosInf
         else if r \<le> - overflow_threshold then NegInf
         else Num r)"

subsection \<open>Operators\<close>

text \<open>ToBoolean: \<^verbatim>\<open>undefined\<close>, \<^verbatim>\<open>NaN\<close> and \<^verbatim>\<open>0\<close> are falsy.\<close>

fun truthy :: "jsval \<Rightarrow> bool" where
  "truthy Undefined = False"
| "truthy NaN = False"
| "truthy NegInf = True"
| "truthy PosInf = True"
| "truthy (Num r) = (r \<noteq> 0)"

text \<open>\<^verbatim>\<open>a < b\<close> on numbers and undefined: any comparison with NaN is false.\<close>

fun js_lt :: "jsval \<Rightarrow> jsval \<Rightarrow> bool" where
  "js_lt Undefined _ = False"
| "js_lt _ Undefined = False"
| "js_lt NaN _ = False"
| "js_lt _ NaN = False"
| "js_lt NegInf NegInf = False"
| "js_lt NegInf _ = True"
| "js_lt PosInf _ = False"
| "js_lt (Num a) NegInf = False"
| "js_lt (Num a) PosInf = True"
| "js_lt (Num a) (Num b) = (a < b)"

text \<open>\<^verbatim>\<open>a <= b\<close>.\<close>

fun js_le :: "jsval \<Rightarrow> jsval \<Rightarrow> bool" where
  "js_le Undefined _ = False"
| "js_le _ Undefined = False"
| "js_le NaN _ = False"
| "js_le _ NaN = False"
| "js_le NegInf _ = True"
| "js_le PosInf PosInf = True"
| "js_le PosInf _ = False"
| "js_le (Num a) NegInf = False"
| "js_le (Num a) PosInf = True"
| "js_le (Num a) (Num b) = (a \<le> b)"

text \<open>\<^verbatim>\<open>a + b\<close> (neither operand is a string here): undefined converts to NaN.\<close>

fun js_add :: "jsval \<Rightarrow> jsval \<Rightarrow> jsval" where
  "js_add Undefined _ = NaN"
| "js_add _ Undefined = NaN"
| "js_add NaN _ = NaN"
| "js_add _ NaN = NaN"
| "js_add NegInf PosInf = NaN"
| "js_add PosInf NegInf = NaN"
| "js_add NegInf _ = NegInf"
| "js_add PosInf _ = PosInf"
| "js_add (Num a) NegInf = NegInf"
| "js_add (Num a) PosInf = PosInf"
| "js_add (Num a) (Num b) = to_double (a + b)"

text \<open>Unary minus.\<close>

fun js_neg :: "jsval \<Rightarrow> jsval" where
  "js_neg Undefined = NaN"
| "js_neg NaN = NaN"
| "js_neg NegInf = PosInf"
| "js_neg PosInf = NegInf"
| "js_neg (Num a) = Num (- a)"

text \<open>\<^verbatim>\<open>a * b\<close>: zero times an infinity is NaN.\<close>

fun js_mul :: "jsval \<Rightarrow> jsval \<Rightarrow> jsval" where
  "js_mul Undefined _ = NaN"
| "js_mul _ Undefined = NaN"
| "js_mul NaN _ = NaN"
| "js_mul _ NaN = NaN"
| "js_mul NegInf NegInf = PosInf"
| "js_mul NegInf PosInf = NegInf"
| "js_mul PosInf NegInf = NegInf"
| "js_mul PosInf PosInf = PosInf"
| "js_mul NegInf (Num b) = (if b = 0 then NaN else if 0 < b then NegInf else PosInf)"
| "js_mul PosInf (Num b) = (if b = 0 then NaN else if 0 < b then PosInf else NegInf)"
| "js_mul (Num a) NegInf = (if a = 0 then NaN else if 0 < a then NegInf else PosInf)"
| "js_mul (Num a) PosInf = (if a = 0 then NaN else if 0 < a then PosInf else NegInf)"
| "js_mul (Num a) (Num b) = to_double (a * b)"

text \<open>
  \<^verbatim>\<open>a / b\<close>: a division by zero does not fail, it yields an infinity (or NaN for
  \<^verbatim>\<open>0 / 0\<close>); the only zero of the model is the positive one.
\<close>

fun js_div :: "jsval \<Rightarrow> jsval \<Rightarrow> jsval" where
  "js_div Undefined _ = NaN"
| "js_div _ Undefined = NaN"
| "js_div NaN _ = NaN"
| "js_div _ NaN = NaN"
| "js_div NegInf NegInf = NaN"
| "js_div NegInf PosInf = NaN"
| "js_div PosInf NegInf = NaN"
| "js_div PosInf PosInf = NaN"
| "js_div NegInf (Num b) = (if b < 0 then PosInf else NegInf)"
| "js_div PosInf (Num b) = (if b < 0 then NegInf else PosInf)"
| "js_div (Num a) NegInf = Num 0"
| "js_div (Num a) PosInf = Num 0"
| "js_div (Num a) (Num b) =
     (if b = 0 then (if a = 0 then NaN else if 0 < a then PosInf else NegInf)
      else to_double (a / b))"

text \<open>\<^verbatim>\<open>Math.min\<close>: NaN if any argument is NaN, \<^verbatim>\<open>Infinity\<close> without arguments.\<close>

fun min2 :: "jsval \<Rightarrow> jsval \<Rightarrow> jsval" where
  "min2 Undefined _ = NaN"
| "min2 _ Undefined = NaN"
| "min2 NaN _ = NaN"
| "min2 _ NaN = NaN"
| "min2 NegInf _ = NegInf"
| "min2 _ NegInf = NegInf"
| "min2 PosInf b = b"
| "min2 a PosInf = a"
| "min2 (Num a) (Num b) = Num (min a b)"

fun Math_min :: "jsval list \<Rightarrow> jsval" where
  "Math_min [] = PosInf"
| "Math_min (x # xs) = min2 x (Math_min xs)"

text \<open>
  \<^verbatim>\<open>Math.round\<close>: the integer nearest to the argument, a tie going up, which is
  \<open>\<lfloor>x + 1/2\<rfloor>\<close>, the \<^const>\<open>round\<close> of HOL. The function is exact: the sum
  \<open>x + 1/2\<close> is not rounded to a double.
\<close>

fun Math_round :: "jsval \<Rightarrow> jsval" where
  "Math_round Undefined = NaN"
| "Math_round NaN = NaN"
| "Math_round NegInf = NegInf"
| "Math_round PosInf = PosInf"
| "Math_round (Num a) = Num (of_int (round a))"

text \<open>\<^verbatim>\<open>s || d\<close> on an optional string: a missing and an empty string are falsy.\<close>

fun str_or :: "string option \<Rightarrow> string \<Rightarrow> string" where
  "str_or None d = d"
| "str_or (Some s) d = (if s = [] then d else s)"

text \<open>\<^verbatim>\<open>v || d\<close> on a number or undefined.\<close>

definition num_or :: "jsval \<Rightarrow> jsval \<Rightarrow> jsval" where
  "num_or v d = (if truthy v then v else d)"

text \<open>
  \<^verbatim>\<open>/jpg|png|jpeg/.test(s)\<close>: the expression has no anchors, so it succeeds when one of
  the three alternatives occurs anywhere in \<open>s\<close>.
\<close>

fun matches_at :: "string \<Rightarrow> string \<Rightarrow> bool" where
  "matches_at [] s = True"
| "matches_at (p # ps) [] = False"
| "matches_at (p # ps) (c # cs) = (p = c \<and> matches_at ps cs)"

fun occurs_in :: "string \<Rightarrow> string \<Rightarrow> bool" where
  "occurs_in p [] = matches_at p []"
| "occurs_in p (c # cs) = (matches_at p (c # cs) \<or> occurs_in p cs)"

definition regex_test :: "string \<Rightarrow> bool" where
  "regex_test s = (occurs_in ''jpg'' s \<or> occurs_in ''png'' s \<or> occurs_in ''jpeg'' s)"

section \<open>The geometry resolver: getDistSize\<close>

text \<open>An object \<^verbatim>\<open>{width, height}\<close>: the source size, the requested size, the result.\<close>

record dims =
  width :: jsval
  height :: jsval

text \<open>
  The value of the variable \<^verbatim>\<open>scale\<close> after lines 140 to 153, on the paths that
  reach line 155. The parameter \<^verbatim>\<open>dist\<close> of the source, the requested size, is
  \<open>req\<close> here.
\<close>

definition scale_factor :: "dims \<Rightarrow> dims \<Rightarrow> jsval \<Rightarrow> jsval" where
  "scale_factor source req orientation =
     (if orientation = Num 6 \<or> orientation = Num 8 then
        Math_min
          [if truthy (width req) then js_div (width req) (height source) else Num 1,
           if truthy (height req) then js_div (height req) (width source) else Num 1,
           Num 1]
      else
        Math_min
          [if truthy (width req) then js_div (width req) (width source) else Num 1,
           if truthy (height req) then js_div (height req) (height source) else Num 1,
           Num 1])"

definition getDistSize :: "dims \<Rightarrow> dims \<Rightarrow> string \<Rightarrow> jsval \<Rightarrow> dims" where
  "getDistSize source req fit orientation =
     (if (orientation = Num 6 \<or> orientation = Num 8) \<and> fit = ''fill''
        then \<lparr>width = height req, height = width req\<rparr>
      else if fit = ''fill'' then req
      else \<lparr>width = Math_round (js_mul (width source) (scale_factor source req orientation)),
            height = Math_round (js_mul (height source) (scale_factor source req orientation))\<rparr>)"

section \<open>The renderer: compress\<close>

text \<open>
  The decoded image: its natural size (each an \<^verbatim>\<open>unsigned long\<close> of the platform,
  32 bits) and the value that \<^verbatim>\<open>EXIF.getTag(this, 'Orientation')\<close> has delivered when
  line 47 runs (\<^const>\<open>Undefined\<close> when there is no tag or the reader has not called
  back).
\<close>

record image =
  naturalWidth :: "32 word"
  naturalHeight :: "32 word"
  exifOrientation :: jsval

text \<open>The object \<^verbatim>\<open>{width: this.naturalWidth, height: this.naturalHeight}\<close>.\<close>

definition naturalSize :: "image \<Rightarrow> dims" where
  "naturalSize this =
     \<lparr>width = Num (of_nat (unat (naturalWidth this))),
      height = Num (of_nat (unat (naturalHeight this)))\<rparr>"

text \<open>
  The canvas records what the code assigns and calls, in order. A rotation is kept as the
  multiple of \<open>\<pi>\<close> the code passes: \<^verbatim>\<open>Math.PI / 2\<close> is \<open>Rotate (1/2)\<close>.
\<close>

datatype draw_op =
  Rotate rat
| DrawImage image jsval jsval jsval jsval

record canvas =
  canvas_width :: jsval
  canvas_height :: jsval
  ctx :: "draw_op list"

text \<open>
  The string \<^verbatim>\<open>canvas.toDataURL(mime, quality)\<close> returns is the platform's; it is
  represented by the call: the canvas, the MIME type looked up and the quality.
\<close>

datatype dataurl = ToDataURL canvas "string option" jsval

definition types :: "string \<Rightarrow> string option" where
  "types = map_of
     [(''jpg'', ''image/jpeg''), (''jpeg'', ''image/jpeg''), (''png'', ''image/png'')]"

text \<open>
  The parameters \<^verbatim>\<open>width\<close> and \<^verbatim>\<open>height\<close> of the source are \<open>w\<close> and \<open>h\<close> here.
  The \<^verbatim>\<open>switch\<close> compares with strict equality; its \<^verbatim>\<open>default\<close> case only breaks.
\<close>

definition compress :: "image \<Rightarrow> jsval \<Rightarrow> jsval \<Rightarrow> string \<Rightarrow> jsval \<Rightarrow> jsval \<Rightarrow> dataurl" where
  "compress img w h type quality orientation =
     (let canvas0 = \<lparr>canvas_width = w, canvas_height = h, ctx = []\<rparr>;
          canvas1 =
            (if truthy orientation \<and> orientation \<noteq> Num 1 then
               (if orientation = Num 6 then
                  canvas0\<lparr>canvas_width := h, canvas_height := w,
                    ctx := [Rotate (1/2), DrawImage img (Num 0) (js_neg h) w h]\<rparr>
                else if orientation = Num 3 then
                  canvas0\<lparr>ctx := [Rotate 1, DrawImage img (js_neg w) (js_neg h) w h]\<rparr>
                else if orientation = Num 8 then
                  canvas0\<lparr>canvas_width := h, canvas_height := w,
                    ctx := [Rotate (3/2), DrawImage img (js_neg w) (Num 0) w h]\<rparr>
                else canvas0)
             else canvas0\<lparr>ctx := [DrawImage img (Num 0) (Num 0) w h]\<rparr>)
      in ToDataURL canvas1 (types type) quality)"

section \<open>The entry point: pictureCompress\<close>

record options =
  opt_img :: "string option"
  opt_width :: jsval
  opt_height :: jsval
  opt_quality :: jsval
  opt_fit :: "string option"
  opt_type :: "string option"

text \<open>The local variables of the executor that the \<^verbatim>\<open>onload\<close> handler closes over.\<close>

record captured =
  imgSrc :: string
  var_width :: jsval
  var_height :: jsval
  var_type :: string
  var_quality :: jsval
  var_fit :: string

record result =
  res_width :: jsval
  res_height :: jsval
  res_img :: dataurl

text \<open>
  A rejection carries \<^verbatim>\<open>new Error(message)\<close> or the event that
  \<^verbatim>\<open>image.onerror\<close> received.
\<close>

datatype reason = Error string | ErrorEvent string

text \<open>
  The promise after the executor has run: rejected by a check, or pending with the image
  load started (\<^verbatim>\<open>image.src = imgSrc\<close>), and then settled by one of the two handlers.
\<close>

datatype state = Rejected reason | Decoding captured | Fulfilled result

definition MissingInput :: reason where
  "MissingInput = Error ''need img''"

definition InvalidDimensions :: reason where
  "InvalidDimensions = Error ''dist width or height need >= 0''"

definition InvalidFormat :: reason where
  "InvalidFormat = Error ''type need jpg or png!''"

text \<open>The test of line 28.\<close>

definition dims_rejected :: "jsval \<Rightarrow> jsval \<Rightarrow> bool" where
  "dims_rejected w h =
     (js_lt w (Num 0) \<or> js_lt h (Num 0) \<or> js_le (js_add w h) (Num 0))"

definition pictureCompress :: "options \<Rightarrow> state" where
  "pictureCompress options =
     (case opt_img options of
        None \<Rightarrow> Rejected (Error ''need img'')
      | Some src \<Rightarrow>
          if src = [] then Rejected (Error ''need img'')
          else
            let w = opt_width options;
                h = opt_height options;
                type = str_or (opt_type options) ''jpg'';
                quality = num_or (opt_quality options) (to_double (92 / 100));
                fit = str_or (opt_fit options) ''scale''
            in if dims_rejected w h
                 then Rejected (Error ''dist width or height need >= 0'')
               else if \<not> regex_test type
                 then Rejected (Error ''type need jpg or png!'')
               else Decoding \<lparr>imgSrc = src, var_width = w, var_height = h, var_type = type,
                      var_quality = quality, var_fit = fit\<rparr>)"

definition onload :: "captured \<Rightarrow> image \<Rightarrow> state" where
  "onload c this =
     (let orientation = num_or (exifOrientation this) (Num 1);
          distSize = getDistSize (naturalSize this)
            \<lparr>width = var_width c, height = var_height c\<rparr>
            (var_fit c) orientation;
          imgData = compress this (width distSize) (height distSize)
            (var_type c) (var_quality c) orientation
      in Fulfilled \<lparr>res_width = width distSize, res_height = height distSize, res_img = imgData\<rparr>)"

definition onerror :: "string \<Rightarrow> state" where
  "onerror err = Rejected (ErrorEvent err)"

section \<open>Definitions used to state the properties\<close>

text \<open>
  The scale mode as the specification words it: a requested dimension of 0 (the default
  of an omitted one) contributes the candidate 1, orientation 6 or 8 compares the
  requested width with the source height and the requested height with the source width,
  the scale is the least of the two candidates and 1, and the result is the rounded
  scaled source. The quotient and the product are those of the platform's numbers: each
  is rounded to the nearest double.
\<close>

definition spec_candidate :: "rat \<Rightarrow> rat \<Rightarrow> rat" where
  "spec_candidate requested src =
     (if requested = 0 then 1 else round_double (requested / src))"

definition spec_scale :: "nat \<times> nat \<Rightarrow> rat \<times> rat \<Rightarrow> int \<Rightarrow> rat" where
  "spec_scale source requested orientation =
     (let candidate_w =
            (if orientation = 6 \<or> orientation = 8
             then spec_candidate (fst requested) (of_nat (snd source))
             else spec_candidate (fst requested) (of_nat (fst source)));
          candidate_h =
            (if orientation = 6 \<or> orientation = 8
             then spec_candidate (snd requested) (of_nat (fst source))
             else spec_candidate (snd requested) (of_nat (snd source)))
      in min candidate_w (min candidate_h 1))"

definition spec_target :: "nat \<times> nat \<Rightarrow> rat \<times> rat \<Rightarrow> int \<Rightarrow> int \<times> int" where
  "spec_target source requested orientation =
     (round (round_double (of_nat (fst source) * spec_scale source requested orientation)),
      round (round_double (of_nat (snd source) * spec_scale source requested orientation)))"

text \<open>The requested dimension as the specification reads it: an omitted one is 0.\<close>

fun requested_of :: "jsval \<Rightarrow> rat" where
  "requested_of (Num r) = r"
| "requested_of _ = 0"

text \<open>A requested dimension that is omitted or a number that is not negative.\<close>

fun valid_requested :: "jsval \<Rightarrow> bool" where
  "valid_requested Undefined = True"
| "valid_requested (Num r) = (0 \<le> r)"
| "valid_requested _ = False"

text \<open>
  The candidate of one axis as a rational, for a requested dimension that is not negative:
  an unconstrained axis counts as 1, and a candidate is cut at 1, which the final minimum
  with 1 does not tell apart.
\<close>

definition cand_rat :: "jsval \<Rightarrow> nat \<Rightarrow> rat" where
  "cand_rat v n =
     (case v of
        Num x \<Rightarrow> if x = 0 \<or> n = 0 then 1 else min 1 (round_double (x / of_nat n))
      | _ \<Rightarrow> 1)"

text \<open>A value that is an integer, zero or more.\<close>

definition is_nonneg_int :: "jsval \<Rightarrow> bool" where
  "is_nonneg_int v = (case v of Num r \<Rightarrow> 0 \<le> r \<and> of_int \<lfloor>r\<rfloor> = r | _ \<Rightarrow> False)"

text \<open>The least integer that is not below a number.\<close>

fun js_ceiling :: "jsval \<Rightarrow> jsval" where
  "js_ceiling (Num r) = Num (of_int \<lceil>r\<rceil>)"
| "js_ceiling Undefined = NaN"
| "js_ceiling v = v"

text \<open>The quality that reached the encoder, and the canvas it encoded.\<close>

fun quality_of :: "dataurl \<Rightarrow> jsval" where
  "quality_of (ToDataURL c m q) = q"

fun canvas_of :: "dataurl \<Rightarrow> canvas" where
  "canvas_of (ToDataURL c m q) = c"

section \<open>Properties of the rounding\<close>

lemma floor_log2_le:
  assumes "0 < x"
  shows "2 powi (floor_log2 x) \<le> x"
proof -
  obtain p q where pq: "quotient_of x = (p, q)" by (cases "quotient_of x")
  then have q: "0 < q" and x: "x = of_int p / of_int q"
    by (simp_all add: quotient_of_denom_pos quotient_of_div)
  from assms q x have p: "0 < p" by (simp add: zero_less_divide_iff)
  define a where "a = nat (bitlen p - 1)"
  define b where "b = nat (bitlen q)"
  from bitlen_bounds [OF p] have pa: "(2::int) ^ a \<le> p" by (simp add: a_def)
  from bitlen_bounds [OF q] have qb: "q < (2::int) ^ b" by (simp add: b_def)
  have bp: "1 \<le> bitlen p" using p by (simp add: bitlen_alt_def)
  have e: "bitlen p - bitlen q - 1 = int a - int b"
    using bp bitlen_nonneg [of q] by (simp add: a_def b_def)
  have "(2::rat) ^ a \<le> of_int p"
    using pa by (metis of_int_le_iff of_int_numeral of_int_power)
  moreover have "(of_int q :: rat) \<le> 2 ^ b"
    using qb by (metis less_imp_le of_int_le_iff of_int_numeral of_int_power)
  ultimately have "(2::rat) ^ a / 2 ^ b \<le> of_int p / of_int q"
    using q p by (intro frac_le) simp_all
  then have low: "(2::rat) powi (bitlen p - bitlen q - 1) \<le> x"
    by (simp add: e x power_int_diff)
  show ?thesis
    using low by (simp add: floor_log2_def pq Let_def)
qed

lemma quantum_pos: "0 < quantum x"
  by (simp add: quantum_def zero_less_power_int)

lemma min_quantum_pos: "0 < min_quantum"
  by (simp add: min_quantum_def zero_less_power_int)

lemma min_quantum_small: "min_quantum \<le> 1 / 2 ^ 64"
proof -
  have "min_exponent - 52 \<le> - 64" by (simp add: min_exponent_def)
  then have "(2::rat) powi (min_exponent - 52) \<le> 2 powi (- 64)"
    by (intro power_int_increasing) simp_all
  moreover have "(2::rat) powi (- 64) = 1 / 2 ^ 64"
    by (simp add: power_int_def power_divide)
  ultimately show ?thesis
    by (simp only: min_quantum_def)
qed

lemma quantum_le:
  assumes "0 < x"
  shows "quantum x \<le> x / 2 ^ 52 + min_quantum"
proof (cases "min_exponent \<le> floor_log2 x")
  case True
  then have "quantum x = 2 powi (floor_log2 x) / 2 ^ 52"
    using assms by (simp add: quantum_def max_def power_int_diff)
  also have "\<dots> \<le> x / 2 ^ 52"
    using floor_log2_le [OF assms] by (simp add: divide_right_mono)
  finally show ?thesis using min_quantum_pos by simp
next
  case False
  then have "quantum x = min_quantum"
    using assms by (simp add: quantum_def max_def min_quantum_def)
  then show ?thesis using assms by simp
qed

lemma round_half_even_bounds:
  "of_int (round_half_even y) \<le> y + 1 / 2" "y - 1 / 2 \<le> of_int (round_half_even y)"
  unfolding round_half_even_def Let_def by (auto; linarith)+

lemma round_half_even_nonneg: "0 \<le> y \<Longrightarrow> 0 \<le> round_half_even y"
  unfolding round_half_even_def Let_def by (auto; linarith)

lemma round_half_even_nonpos: "y \<le> 0 \<Longrightarrow> round_half_even y \<le> 0"
  unfolding round_half_even_def Let_def by (auto; linarith)

lemma round_double_nonneg: "0 \<le> x \<Longrightarrow> 0 \<le> round_double x"
  using quantum_pos [of x] round_half_even_nonneg [of "x / quantum x"]
  by (simp add: round_double_def)

lemma round_double_nonpos: "x \<le> 0 \<Longrightarrow> round_double x \<le> 0"
  using quantum_pos [of x] round_half_even_nonpos [of "x / quantum x"]
  by (simp add: round_double_def mult_le_0_iff divide_le_0_iff)

text \<open>The relative error of a rounding is at most \<open>2\<^sup>-\<^sup>5\<^sup>3\<close>, but for underflow.\<close>

lemma round_double_upper:
  assumes "0 \<le> x"
  shows "round_double x \<le> x + x / 2 ^ 53 + min_quantum / 2"
proof (cases "x = 0")
  case True
  then show ?thesis using min_quantum_pos by (simp add: round_double_def)
next
  case False
  with assms have pos: "0 < x" by simp
  define q where "q = quantum x"
  have q: "0 < q" unfolding q_def by (rule quantum_pos)
  have "round_double x = of_int (round_half_even (x / q)) * q"
    using False by (simp add: round_double_def q_def)
  also have "\<dots> \<le> (x / q + 1 / 2) * q"
    using round_half_even_bounds(1) [of "x / q"] q by (intro mult_right_mono) simp_all
  also have "\<dots> = x + q / 2"
    using q by (simp add: field_simps)
  also have "\<dots> \<le> x + (x / 2 ^ 52 + min_quantum) / 2"
    using quantum_le [OF pos] by (simp add: q_def)
  also have "\<dots> = x + x / 2 ^ 53 + min_quantum / 2"
    by (simp add: field_simps)
  finally show ?thesis .
qed

lemma overflow_threshold_large: "2 ^ 40 \<le> overflow_threshold"
  unfolding overflow_threshold_def by (intro power_increasing) simp_all

text \<open>On a product that is at most \<open>2\<^sup>3\<^sup>3\<close> the rounding adds less than \<open>2\<^sup>-\<^sup>1\<^sup>9\<close>.\<close>

lemma round_double_close:
  assumes "0 \<le> x" and "x \<le> 2 ^ 33"
  shows "round_double x \<le> x + 1 / 2 ^ 19"
proof -
  have "x / 2 ^ 53 \<le> 2 ^ 33 / 2 ^ 53"
    using assms(2) by (intro divide_right_mono) simp_all
  with round_double_upper [OF assms(1)] min_quantum_small show ?thesis by simp
qed

lemma to_double_small:
  assumes "0 \<le> x" and "x \<le> 2 ^ 33"
  shows "to_double x = Num (round_double x)"
proof -
  have "round_double x < overflow_threshold"
    using round_double_close [OF assms] assms(2) overflow_threshold_large by simp
  moreover have "- overflow_threshold < round_double x"
    using round_double_nonneg [OF assms(1)] overflow_threshold_large by simp
  ultimately show ?thesis by (simp add: to_double_def Let_def)
qed

lemma to_double_nonneg:
  assumes "0 \<le> x"
  shows "to_double x = PosInf \<and> 1 \<le> round_double x \<or> to_double x = Num (round_double x)"
  using round_double_nonneg [OF assms] overflow_threshold_large
  by (auto simp: to_double_def Let_def)

lemma to_double_nonpos:
  assumes "x \<le> 0"
  shows "to_double x = NegInf \<or> to_double x = Num (round_double x)"
  using round_double_nonpos [OF assms] overflow_threshold_large
  by (auto simp: to_double_def Let_def)

section \<open>The scale path on a validated request\<close>

lemma cand_min:
  assumes "\<not> js_lt v (Num 0)" and "t \<le> 1"
  shows "min2 (if truthy v then js_div v (Num (of_nat n)) else Num 1) (Num t) =
         Num (min (cand_rat v n) t)"
proof (cases v)
  case (Num x)
  show ?thesis
  proof (cases "x = 0 \<or> n = 0")
    case True
    with Num assms show ?thesis by (auto simp: cand_rat_def min_def)
  next
    case False
    with Num assms have "0 \<le> x / of_nat n" by simp
    from to_double_nonneg [OF this] False Num assms show ?thesis
      by (auto simp: cand_rat_def min_def)
  qed
qed (use assms in \<open>auto simp: cand_rat_def min_def\<close>)

lemma cand_nonneg: "\<not> js_lt v (Num 0) \<Longrightarrow> 0 \<le> cand_rat v n"
  by (cases v) (auto simp: cand_rat_def round_double_nonneg)

lemma scale_factor_rat:
  assumes "\<not> js_lt (width req) (Num 0)" and "\<not> js_lt (height req) (Num 0)"
  shows "scale_factor \<lparr>width = Num (of_nat sw), height = Num (of_nat sh)\<rparr> req orientation =
    Num (if orientation = Num 6 \<or> orientation = Num 8
         then min (cand_rat (width req) sh) (min (cand_rat (height req) sw) 1)
         else min (cand_rat (width req) sw) (min (cand_rat (height req) sh) 1))"
proof -
  have inner: "min2 (if truthy (height req) then js_div (height req) (Num (of_nat n)) else Num 1)
      (Num 1) = Num (min (cand_rat (height req) n) 1)" for n
    using cand_min [OF assms(2), of 1 n] by simp
  have outer: "min2 (if truthy (width req) then js_div (width req) (Num (of_nat n)) else Num 1)
      (Num (min c 1)) = Num (min (cand_rat (width req) n) (min c 1))" for n c
    using cand_min [OF assms(1), of "min c 1" n] by simp
  show ?thesis
  proof (cases "orientation = Num 6 \<or> orientation = Num 8")
    case True
    then show ?thesis
      by (simp add: scale_factor_def inner outer split del: if_split cong del: if_weak_cong)
  next
    case False
    then show ?thesis
      by (simp add: scale_factor_def inner outer split del: if_split cong del: if_weak_cong)
  qed
qed

text \<open>The doubles that the examples below go through.\<close>

lemma round_double_values:
  "round_double 0 = 0" "round_double 1 = 1" "round_double 2 = 2"
  "round_double (1 / 2) = 1 / 2"
  "round_double 300 = 300" "round_double 400 = 400" "round_double 800 = 800"
  "round_double (21 / 2) = 21 / 2"
  "round_double (2 / 3) = 6004799503160661 / 9007199254740992"
  "round_double (150119987579016525 / 281474976710656) =
     2345624805922133 / 4398046511104"
  "round_double (450359962737049575 / 1125899906842624) = 400"
  "round_double (3 / 3200) = 1080863910568919 / 1152921504606846976"
  "round_double (27021597764222975 / 36028797018963968) = 3 / 4"
  "round_double (81064793292668925 / 144115188075855872) = 9 / 16"
  "round_double (41 / 400) = 7385903388887613 / 72057594037927936"
  "round_double (184647584722190325 / 2251799813685248) = 82"
  "round_double (553942754166570975 / 9007199254740992) =
     8655355533852671 / 140737488355328"
  by code_simp+

lemmas double_eval = to_double_small round_double_values

lemma unat_32_bound: "unat (w :: 32 word) < 2 ^ 32"
  using unsigned_less [of w] by simp

text \<open>
  What the scale path computes for a decoded image and a request without a negative
  dimension: a scale factor in \<open>[0, 1]\<close>, the least of the candidates and 1, and the
  rounded scaled source.
\<close>

lemma scale_path:
  assumes "\<not> js_lt (width req) (Num 0)" and "\<not> js_lt (height req) (Num 0)"
    and "fit \<noteq> ''fill''"
  shows "\<exists>s. 0 \<le> s \<and> s \<le> 1 \<and>
    scale_factor (naturalSize this) req orientation = Num s \<and>
    getDistSize (naturalSize this) req fit orientation =
      \<lparr>width = Num (of_int (round (round_double (of_nat (unat (naturalWidth this)) * s)))),
       height = Num (of_int (round (round_double (of_nat (unat (naturalHeight this)) * s))))\<rparr> \<and>
    s = (if orientation = Num 6 \<or> orientation = Num 8
         then min (cand_rat (width req) (unat (naturalHeight this)))
                (min (cand_rat (height req) (unat (naturalWidth this))) 1)
         else min (cand_rat (width req) (unat (naturalWidth this)))
                (min (cand_rat (height req) (unat (naturalHeight this))) 1))"
proof -
  define sw where "sw = unat (naturalWidth this)"
  define sh where "sh = unat (naturalHeight this)"
  define s where "s = (if orientation = Num 6 \<or> orientation = Num 8
         then min (cand_rat (width req) sh) (min (cand_rat (height req) sw) 1)
         else min (cand_rat (width req) sw) (min (cand_rat (height req) sh) 1))"
  have sf: "scale_factor (naturalSize this) req orientation = Num s"
    unfolding s_def naturalSize_def sw_def sh_def by (rule scale_factor_rat [OF assms(1,2)])
  have nonneg: "0 \<le> s"
    unfolding s_def using cand_nonneg [OF assms(1)] cand_nonneg [OF assms(2)] by simp
  have le1: "s \<le> 1"
    unfolding s_def by (simp add: min.coboundedI2)
  have prod: "js_mul (Num (of_nat n)) (Num s) = Num (round_double (of_nat n * s))"
    if "n < 2 ^ 32" for n :: nat
  proof -
    have "of_nat n * s \<le> of_nat n * 1"
      using le1 by (intro mult_left_mono) simp_all
    moreover have "(of_nat n :: rat) \<le> 2 ^ 32"
      using that by (metis less_imp_le of_nat_le_iff of_nat_numeral of_nat_power)
    ultimately have "of_nat n * s \<le> 2 ^ 33" by simp
    moreover have "0 \<le> of_nat n * s" using nonneg by simp
    ultimately show ?thesis by (simp add: to_double_small)
  qed
  have res: "getDistSize (naturalSize this) req fit orientation =
      \<lparr>width = Num (of_int (round (round_double (of_nat sw * s)))),
       height = Num (of_int (round (round_double (of_nat sh * s))))\<rparr>"
    using assms(3) prod [of sw] prod [of sh] unat_32_bound sf
    by (simp add: getDistSize_def naturalSize_def sw_def sh_def)
  from nonneg le1 sf res show ?thesis
    unfolding s_def sw_def sh_def by blast
qed

lemma round_scaled:
  fixes s :: rat
  assumes "0 \<le> s" and "s \<le> 1" and "n < 2 ^ 32"
  shows "0 \<le> round (round_double (of_nat n * s))"
    and "round (round_double (of_nat n * s)) \<le> int n"
    and "(of_int (round (round_double (of_nat n * s))) :: rat) \<le> of_nat n"
proof -
  have nn: "0 \<le> of_nat n * s" using assms(1) by simp
  from round_double_nonneg [OF nn]
  show "0 \<le> round (round_double (of_nat n * s))"
    using round_mono [of 0 "round_double (of_nat n * s)"] by simp
  have le: "of_nat n * s \<le> of_nat n"
    using assms(2) mult_left_mono [of s 1 "of_nat n"] by simp
  have "(of_nat n :: rat) \<le> 2 ^ 32"
    using assms(3) by (metis less_imp_le of_nat_le_iff of_nat_numeral of_nat_power)
  with le have "of_nat n * s \<le> 2 ^ 33" by simp
  from round_double_close [OF nn this] le
  have "round_double (of_nat n * s) + 1 / 2 < of_int (int n) + 1" by simp
  then show up: "round (round_double (of_nat n * s)) \<le> int n"
    unfolding round_def by (simp only: floor_le_iff)
  then have "(of_int (round (round_double (of_nat n * s))) :: rat) \<le> of_int (int n)"
    by (simp only: of_int_le_iff)
  then show "(of_int (round (round_double (of_nat n * s))) :: rat) \<le> of_nat n" by simp
qed

text \<open>
  On a constrained axis the rounded product of the source dimension and a scale that is
  at most the candidate of that axis never exceeds the requested dimension rounded up.
\<close>

lemma cand_bound:
  assumes "\<not> js_lt v (Num 0)" and "truthy v" and "0 \<le> s" and "s \<le> 1"
    and "s \<le> cand_rat v n" and "n < 2 ^ 32"
  shows "js_le (Num (of_int (round (round_double (of_nat n * s))))) (js_ceiling v)"
proof (cases v)
  case (Num x)
  with assms have x: "0 < x" by simp
  let ?p = "round_double (of_nat n * s)"
  have n32: "(of_nat n :: rat) \<le> 2 ^ 32"
    using assms(6) by (metis less_imp_le of_nat_le_iff of_nat_numeral of_nat_power)
  have "round ?p \<le> \<lceil>x\<rceil>"
  proof (cases "of_nat n \<le> x")
    case True
    then have "int n \<le> \<lceil>x\<rceil>" by (simp add: le_ceiling_iff)
    with round_scaled(2) [OF assms(3,4,6)] show ?thesis by simp
  next
    case False
    then have xn: "x < of_nat n" and npos: "0 < n" using x by (auto simp: not_le)
    from Num assms(5) x npos have "s \<le> round_double (x / of_nat n)"
      by (simp add: cand_rat_def)
    also have "\<dots> \<le> x / of_nat n + x / of_nat n / 2 ^ 53 + min_quantum / 2"
      using x by (intro round_double_upper) simp
    finally have "of_nat n * s \<le>
        of_nat n * (x / of_nat n + x / of_nat n / 2 ^ 53 + min_quantum / 2)"
      by (intro mult_left_mono) simp_all
    also have "\<dots> = x + x / 2 ^ 53 + of_nat n * (min_quantum / 2)"
      using npos by (simp add: field_simps)
    finally have ns: "of_nat n * s \<le> x + x / 2 ^ 53 + of_nat n * (min_quantum / 2)" .
    have "of_nat n * (min_quantum / 2) \<le> 2 ^ 32 * (1 / 2 ^ 64 / 2)"
      using n32 min_quantum_small min_quantum_pos by (intro mult_mono) simp_all
    also have "\<dots> = 1 / 2 ^ 33" by simp
    finally have a: "of_nat n * (min_quantum / 2) \<le> 1 / 2 ^ 33" .
    have "x / 2 ^ 53 \<le> 2 ^ 32 / 2 ^ 53"
      using xn n32 by (intro divide_right_mono) simp_all
    also have "\<dots> = 1 / 2 ^ 21" by simp
    finally have b: "x / 2 ^ 53 \<le> 1 / 2 ^ 21" .
    have c: "(1 :: rat) / 2 ^ 21 + 1 / 2 ^ 33 \<le> 1 / 2 ^ 20" by simp
    from ns a b c have ns': "of_nat n * s \<le> x + 1 / 2 ^ 20" by linarith
    have nn: "0 \<le> of_nat n * s" using assms(3) by simp
    have "of_nat n * s \<le> of_nat n"
      using assms(4) mult_left_mono [of s 1 "of_nat n"] by simp
    with n32 have "of_nat n * s \<le> 2 ^ 33" by simp
    from round_double_close [OF nn this] ns'
    have "?p \<le> x + 1 / 4" by simp
    moreover have "x \<le> of_int \<lceil>x\<rceil>" by (rule le_of_int_ceiling)
    ultimately have "?p + 1 / 2 < of_int \<lceil>x\<rceil> + 1" by linarith
    then show ?thesis
      unfolding round_def by (simp only: floor_le_iff)
  qed
  with Num show ?thesis by simp
qed (use assms in auto)

lemma valid_requested_nonneg: "valid_requested v \<Longrightarrow> \<not> js_lt v (Num 0)"
  by (cases v) auto

lemma cand_rat_spec:
  assumes "valid_requested v" and "0 < n"
  shows "cand_rat v n = min 1 (spec_candidate (requested_of v) (of_nat n))"
  using assms by (cases v) (auto simp: cand_rat_def spec_candidate_def)

text \<open>The scale path computes the formula of the specification.\<close>

lemma scale_path_formula:
  assumes "0 < naturalWidth this" and "0 < naturalHeight this"
    and "valid_requested (width req)" and "valid_requested (height req)"
    and "fit \<noteq> ''fill''"
  shows "getDistSize (naturalSize this) req fit (Num (of_int k)) =
     \<lparr>width = Num (of_int (fst (spec_target
        (unat (naturalWidth this), unat (naturalHeight this))
        (requested_of (width req), requested_of (height req)) k))),
      height = Num (of_int (snd (spec_target
        (unat (naturalWidth this), unat (naturalHeight this))
        (requested_of (width req), requested_of (height req)) k)))\<rparr>"
proof -
  have sw: "0 < unat (naturalWidth this)" and sh: "0 < unat (naturalHeight this)"
    using assms(1,2) by (simp_all add: word_less_nat_alt)
  from scale_path [OF valid_requested_nonneg [OF assms(3)]
      valid_requested_nonneg [OF assms(4)] assms(5), of this "Num (of_int k)"]
  obtain s :: rat where
    res: "getDistSize (naturalSize this) req fit (Num (of_int k)) =
      \<lparr>width = Num (of_int (round (round_double (of_nat (unat (naturalWidth this)) * s)))),
       height = Num (of_int (round (round_double (of_nat (unat (naturalHeight this)) * s))))\<rparr>"
    and s: "s = (if Num (of_int k) = Num 6 \<or> Num (of_int k) = Num 8
         then min (cand_rat (width req) (unat (naturalHeight this)))
                (min (cand_rat (height req) (unat (naturalWidth this))) 1)
         else min (cand_rat (width req) (unat (naturalWidth this)))
                (min (cand_rat (height req) (unat (naturalHeight this))) 1))"
    by blast
  have "s = spec_scale (unat (naturalWidth this), unat (naturalHeight this))
      (requested_of (width req), requested_of (height req)) k"
    unfolding s spec_scale_def Let_def
    by (simp add: cand_rat_spec [OF assms(3)] cand_rat_spec [OF assms(4)] sw sh min_def)
  with res show ?thesis by (simp add: spec_target_def)
qed

section \<open>The regular expression\<close>

lemma matches_at_iff: "matches_at p s \<longleftrightarrow> (\<exists>b. s = p @ b)"
  by (induction p s rule: matches_at.induct) auto

lemma occurs_in_iff: "occurs_in p s \<longleftrightarrow> (\<exists>a b. s = a @ p @ b)"
proof (induction s)
  case Nil
  show ?case by (simp add: matches_at_iff)
next
  case (Cons c cs)
  have "(\<exists>a b. c # cs = a @ p @ b) \<longleftrightarrow> (\<exists>b. c # cs = p @ b) \<or> (\<exists>a b. cs = a @ p @ b)"
    (is "?L \<longleftrightarrow> ?R")
  proof
    assume ?L
    then obtain a b where ab: "c # cs = a @ p @ b" by blast
    show ?R
    proof (cases a)
      case Nil
      with ab show ?thesis by auto
    next
      case (Cons x a')
      with ab have "cs = a' @ p @ b" by simp
      then show ?thesis by blast
    qed
  next
    assume ?R
    then show ?L
    proof
      assume "\<exists>b. c # cs = p @ b"
      then obtain b where "c # cs = [] @ p @ b" by auto
      then show ?L by blast
    next
      assume "\<exists>a b. cs = a @ p @ b"
      then obtain a b where "c # cs = (c # a) @ p @ b" by auto
      then show ?L by blast
    qed
  qed
  with Cons show ?case by (simp add: matches_at_iff)
qed

section \<open>Validation\<close>

text \<open>
  C8. A request whose image source is missing or the empty string is rejected with
  MissingInput by the executor itself, whatever its other fields are: the promise is
  rejected and never reaches the state in which the image load has started.
\<close>

theorem missing_input_rejected:
  assumes "opt_img options = None \<or> opt_img options = Some []"
  shows "pictureCompress options = Rejected MissingInput"
  using assms by (auto simp: pictureCompress_def MissingInput_def)

theorem missing_input_rejected_witness:
  "pictureCompress \<lparr>opt_img = Some [], opt_width = Num 400, opt_height = Num 300,
     opt_quality = Num (1/2), opt_fit = Some ''fill'', opt_type = Some ''png''\<rparr>
   = Rejected MissingInput"
  using missing_input_rejected [of "\<lparr>opt_img = Some [], opt_width = Num 400,
     opt_height = Num 300, opt_quality = Num (1/2), opt_fit = Some ''fill'',
     opt_type = Some ''png''\<rparr>"]
  by simp

text \<open>
  C1 as written fails because the image source is checked first: a request with an empty
  source and a negative width, which the test of line 28 would reject, is rejected with
  MissingInput.
\<close>

theorem invalid_dimensions_counterexample:
  "dims_rejected (Num (- 1)) (Num 10) \<and>
   pictureCompress \<lparr>opt_img = Some [], opt_width = Num (- 1), opt_height = Num 10,
     opt_quality = Undefined, opt_fit = None, opt_type = None\<rparr>
   = Rejected MissingInput \<and>
   MissingInput \<noteq> InvalidDimensions"
  by (simp add: pictureCompress_def dims_rejected_def MissingInput_def InvalidDimensions_def)

text \<open>
  C1, amended. For a request with a non-empty image source: if the width is a number
  below 0, or the height is a number below 0, or both are numbers whose sum is at most 0,
  the executor rejects with InvalidDimensions and the image load never starts.
\<close>

theorem invalid_dimensions_rejected:
  assumes "opt_img options = Some src" and "src \<noteq> []"
    and "opt_width options = NegInf \<or> (\<exists>w. opt_width options = Num w \<and> w < 0) \<or>
         opt_height options = NegInf \<or> (\<exists>h. opt_height options = Num h \<and> h < 0) \<or>
         (\<exists>w h. opt_width options = Num w \<and> opt_height options = Num h \<and> w + h \<le> 0)"
  shows "pictureCompress options = Rejected InvalidDimensions"
proof -
  have sum: "js_le (to_double (w + h)) (Num 0)" if "w + h \<le> 0" for w h :: rat
    using to_double_nonpos [OF that] round_double_nonpos [OF that] by auto
  have "dims_rejected (opt_width options) (opt_height options)"
    using assms(3) sum unfolding dims_rejected_def
    by (cases "opt_width options"; cases "opt_height options") auto
  with assms(1,2) show ?thesis
    by (simp add: pictureCompress_def InvalidDimensions_def Let_def)
qed

theorem invalid_dimensions_rejected_witness:
  "pictureCompress \<lparr>opt_img = Some ''a.jpg'', opt_width = Num 0, opt_height = Num 0,
     opt_quality = Undefined, opt_fit = None, opt_type = None\<rparr>
   = Rejected InvalidDimensions"
  using invalid_dimensions_rejected [of "\<lparr>opt_img = Some ''a.jpg'', opt_width = Num 0,
     opt_height = Num 0, opt_quality = Undefined, opt_fit = None, opt_type = None\<rparr>" "''a.jpg''"]
  by simp

text \<open>
  An omitted dimension is \<^verbatim>\<open>undefined\<close> at line 28: each comparison with it is
  false, so the test lets a request without any positive dimension through when a
  dimension is omitted, while it rejects the same request with explicit zeros.
\<close>

lemma omitted_dimensions_pass:
  "\<not> dims_rejected Undefined Undefined \<and> \<not> dims_rejected (Num 0) Undefined \<and>
   dims_rejected (Num 0) (Num 0)"
  by (simp add: dims_rejected_def double_eval)

text \<open>
  C2 as written fails where the code has a different order or a default: the image source
  is checked before the type, and an empty type string is replaced by \<^verbatim>\<open>'jpg'\<close>
  before the test, so it is accepted although it is none of the three names.
\<close>

theorem invalid_format_counterexample:
  "pictureCompress \<lparr>opt_img = Some [], opt_width = Num 1, opt_height = Num 1,
     opt_quality = Undefined, opt_fit = None, opt_type = Some ''gif''\<rparr>
   \<noteq> Rejected InvalidFormat \<and>
   pictureCompress \<lparr>opt_img = Some ''a.jpg'', opt_width = Num 1, opt_height = Num 1,
     opt_quality = Undefined, opt_fit = None, opt_type = Some []\<rparr>
   = Decoding \<lparr>imgSrc = ''a.jpg'', var_width = Num 1, var_height = Num 1,
       var_type = ''jpg'', var_quality = to_double (92 / 100), var_fit = ''scale''\<rparr>"
  by (simp add: pictureCompress_def Let_def dims_rejected_def regex_test_def num_or_def
      InvalidFormat_def double_eval)

text \<open>
  C2, amended. For a request with a non-empty image source and dimensions that pass the
  test of line 28, whose type is a non-empty string in which none of jpg, png and jpeg
  occurs, the executor rejects with InvalidFormat and the image load never starts; the
  type gif is such a string.
\<close>

theorem invalid_format_rejected:
  assumes "opt_img options = Some src" and "src \<noteq> []"
    and "\<not> dims_rejected (opt_width options) (opt_height options)"
    and "opt_type options = Some t" and "t \<noteq> []"
    and "\<forall>p \<in> {''jpg'', ''png'', ''jpeg''}. \<not> (\<exists>a b. t = a @ p @ b)"
  shows "pictureCompress options = Rejected InvalidFormat"
proof -
  have "\<not> regex_test t"
    using assms(6) by (simp add: regex_test_def occurs_in_iff)
  with assms(1-5) show ?thesis
    by (simp add: pictureCompress_def InvalidFormat_def Let_def)
qed

theorem invalid_format_rejected_witness:
  "pictureCompress \<lparr>opt_img = Some ''a.jpg'', opt_width = Num 400, opt_height = Num 0,
     opt_quality = Undefined, opt_fit = None, opt_type = Some ''gif''\<rparr>
   = Rejected InvalidFormat"
proof -
  have sub: "\<forall>p \<in> {''jpg'', ''png'', ''jpeg''}. \<not> (\<exists>a b. ''gif'' = a @ p @ b)"
    by (simp add: occurs_in_iff [symmetric])
  have dims: "\<not> dims_rejected (Num 400) (Num 0)"
    by (simp add: dims_rejected_def double_eval)
  show ?thesis
    using invalid_format_rejected [of "\<lparr>opt_img = Some ''a.jpg'', opt_width = Num 400,
      opt_height = Num 0, opt_quality = Undefined, opt_fit = None, opt_type = Some ''gif''\<rparr>"
      "''a.jpg''" "''gif''"] sub dims
    by simp
qed

text \<open>
  The test of line 32 has no anchors: a type that merely contains one of the names, such
  as a MIME type, passes it, finds no entry in \<^verbatim>\<open>types\<close>, and the encoder is called with
  an undefined MIME type.
\<close>

lemma format_test_unanchored:
  "pictureCompress \<lparr>opt_img = Some ''a.jpg'', opt_width = Num 400, opt_height = Num 0,
     opt_quality = Undefined, opt_fit = None, opt_type = Some ''image/jpeg''\<rparr>
   = Decoding \<lparr>imgSrc = ''a.jpg'', var_width = Num 400, var_height = Num 0,
       var_type = ''image/jpeg'', var_quality = to_double (92 / 100), var_fit = ''scale''\<rparr> \<and>
   types ''image/jpeg'' = None"
  by (simp add: pictureCompress_def Let_def dims_rejected_def regex_test_def num_or_def
      types_def double_eval)

section \<open>The geometry resolver\<close>

text \<open>
  C4. In fill mode the resolver returns the requested dimensions, swapped exactly when the
  orientation is 6 or 8, whatever the source size is.
\<close>

theorem fill_mode_returns_request:
  "getDistSize source req ''fill'' orientation =
     (if orientation = Num 6 \<or> orientation = Num 8
      then \<lparr>width = height req, height = width req\<rparr> else req)"
  by (simp add: getDistSize_def)

theorem fill_mode_returns_request_witness:
  "getDistSize \<lparr>width = Num 800, height = Num 600\<rparr> \<lparr>width = Num 200, height = Num 100\<rparr>
     ''fill'' (Num 6) = \<lparr>width = Num 100, height = Num 200\<rparr> \<and>
   getDistSize \<lparr>width = Num 800, height = Num 600\<rparr> \<lparr>width = Num 200, height = Num 100\<rparr>
     ''fill'' (Num 3) = \<lparr>width = Num 200, height = Num 100\<rparr>"
  using fill_mode_returns_request [of "\<lparr>width = Num 800, height = Num 600\<rparr>"
      "\<lparr>width = Num 200, height = Num 100\<rparr>" "Num 6"]
    fill_mode_returns_request [of "\<lparr>width = Num 800, height = Num 600\<rparr>"
      "\<lparr>width = Num 200, height = Num 100\<rparr>" "Num 3"]
  by simp

text \<open>
  The resolver on concrete sizes, each product rounded to a double before
  \<^verbatim>\<open>Math.round\<close>: for the source 800 by 600 and the width 82 the product
  \<open>600 \<times> (82 / 800)\<close> is a double just below 61.5, and the height is 61.
\<close>

lemma getDistSize_examples:
  "getDistSize \<lparr>width = Num 800, height = Num 600\<rparr> \<lparr>width = Num 400, height = Num 0\<rparr>
     ''scale'' (Num 1) = \<lparr>width = Num 400, height = Num 300\<rparr>"
  "getDistSize \<lparr>width = Num 800, height = Num 600\<rparr> \<lparr>width = Num 82, height = Num 0\<rparr>
     ''scale'' (Num 1) = \<lparr>width = Num 82, height = Num 61\<rparr>"
  "getDistSize \<lparr>width = Num 800, height = Num 600\<rparr> \<lparr>width = Num 400, height = Num 0\<rparr>
     ''scale'' (Num 6) = \<lparr>width = Num 533, height = Num 400\<rparr>"
  "getDistSize \<lparr>width = Num 800, height = Num 600\<rparr> \<lparr>width = Num (3 / 4), height = Num 0\<rparr>
     ''scale'' (Num 1) = \<lparr>width = Num 1, height = Num 1\<rparr>"
  by (simp_all add: getDistSize_def scale_factor_def double_eval round_def floor_eq_iff)

text \<open>
  C3. For a decoded image of positive size, a requested size whose dimensions are omitted
  or not negative, and any orientation code, scale mode returns what the specification's
  formula gives; source 800 by 600 with the request 400 by 0 and orientation 1 gives
  400 by 300.
\<close>

theorem scale_mode_formula:
  assumes "0 < naturalWidth this" and "0 < naturalHeight this"
    and "valid_requested (width req)" and "valid_requested (height req)"
  shows "getDistSize (naturalSize this) req ''scale'' (Num (of_int k)) =
     \<lparr>width = Num (of_int (fst (spec_target
        (unat (naturalWidth this), unat (naturalHeight this))
        (requested_of (width req), requested_of (height req)) k))),
      height = Num (of_int (snd (spec_target
        (unat (naturalWidth this), unat (naturalHeight this))
        (requested_of (width req), requested_of (height req)) k)))\<rparr> \<and>
     getDistSize \<lparr>width = Num 800, height = Num 600\<rparr>
       \<lparr>width = Num 400, height = Num 0\<rparr> ''scale'' (Num 1) =
     \<lparr>width = Num 400, height = Num 300\<rparr>"
proof -
  have "''scale'' \<noteq> ''fill''" by simp
  from scale_path_formula [OF assms this] getDistSize_examples(1) show ?thesis by simp
qed

theorem scale_mode_formula_witness:
  "getDistSize
     (naturalSize \<lparr>naturalWidth = 800, naturalHeight = 600, exifOrientation = Num 6\<rparr>)
     \<lparr>width = Num 400, height = Undefined\<rparr> ''scale'' (Num 6) =
   \<lparr>width = Num 533, height = Num 400\<rparr>"
proof -
  have "spec_target (800, 600) (400, 0) 6 = (533, 400)"
    by (simp add: spec_target_def spec_scale_def spec_candidate_def round_double_values
        round_def floor_eq_iff)
  with scale_mode_formula [of "\<lparr>naturalWidth = 800, naturalHeight = 600,
      exifOrientation = Num 6\<rparr>" "\<lparr>width = Num 400, height = Undefined\<rparr>" 6]
  show ?thesis by simp
qed

text \<open>
  C10. Every fit value other than the string fill takes the scale path: the result is the
  one of scale mode, and for a decoded image of positive size and a requested size whose
  dimensions are omitted or not negative it is the rounded scaled source of the
  specification's formula, with the least of the two candidates and 1 as the scale.
\<close>

theorem other_fit_is_scale:
  assumes "fit \<noteq> ''fill''"
  shows "getDistSize source req fit orientation = getDistSize source req ''scale'' orientation \<and>
    (0 < naturalWidth this \<and> 0 < naturalHeight this \<and>
     valid_requested (width req) \<and> valid_requested (height req) \<longrightarrow>
     getDistSize (naturalSize this) req fit (Num (of_int k)) =
       \<lparr>width = Num (of_int (fst (spec_target
          (unat (naturalWidth this), unat (naturalHeight this))
          (requested_of (width req), requested_of (height req)) k))),
        height = Num (of_int (snd (spec_target
          (unat (naturalWidth this), unat (naturalHeight this))
          (requested_of (width req), requested_of (height req)) k)))\<rparr>)"
  using assms scale_path_formula [of this req fit k]
  by (simp add: getDistSize_def)

theorem other_fit_is_scale_witness:
  "getDistSize
     (naturalSize \<lparr>naturalWidth = 800, naturalHeight = 600, exifOrientation = Undefined\<rparr>)
     \<lparr>width = Num 82, height = Num 0\<rparr> ''cover'' (Num 1) =
   \<lparr>width = Num 82, height = Num 61\<rparr>"
proof -
  have "spec_target (800, 600) (82, 0) 1 = (82, 61)"
    by (simp add: spec_target_def spec_scale_def spec_candidate_def round_double_values
        round_def floor_eq_iff)
  with other_fit_is_scale [where fit = "''cover''"
      and req = "\<lparr>width = Num 82, height = Num 0\<rparr>"
      and this = "\<lparr>naturalWidth = 800, naturalHeight = 600, exifOrientation = Undefined\<rparr>"
      and k = 1 and orientation = "Num 1"
      and source = "naturalSize
        \<lparr>naturalWidth = 800, naturalHeight = 600, exifOrientation = Undefined\<rparr>"]
  show ?thesis by auto
qed

text \<open>
  C5 as written fails in two ways. Under orientation 6 or 8 the code fits the requested
  width against the source height: source 800 by 600 with the request 400 by 0 gives the
  target 533 by 400, whose width exceeds the requested width. And the target is rounded
  to an integer: the requested width 3/4 gives the target width 1.
\<close>

theorem scale_mode_bounds_counterexample:
  "truthy (Num 400) \<and>
   getDistSize \<lparr>width = Num 800, height = Num 600\<rparr> \<lparr>width = Num 400, height = Num 0\<rparr>
     ''scale'' (Num 6) = \<lparr>width = Num 533, height = Num 400\<rparr> \<and>
   \<not> js_le
     (width (getDistSize \<lparr>width = Num 800, height = Num 600\<rparr>
        \<lparr>width = Num 400, height = Num 0\<rparr> ''scale'' (Num 6)))
     (Num 400) \<and>
   truthy (Num (3 / 4)) \<and>
   getDistSize \<lparr>width = Num 800, height = Num 600\<rparr> \<lparr>width = Num (3 / 4), height = Num 0\<rparr>
     ''scale'' (Num 1) = \<lparr>width = Num 1, height = Num 1\<rparr> \<and>
   \<not> js_le
     (width (getDistSize \<lparr>width = Num 800, height = Num 600\<rparr>
        \<lparr>width = Num (3 / 4), height = Num 0\<rparr> ''scale'' (Num 1)))
     (Num (3 / 4))"
  by (simp add: getDistSize_examples)

text \<open>
  C5, amended. For a decoded image and a request without a negative dimension, in scale
  mode and for every orientation: the scale factor is at most 1; the target never
  exceeds the source, width against width and height against height; and on each
  constrained axis the target never exceeds the requested dimension rounded up to an
  integer, where the requested width bounds the target width and the requested height
  the target height, except under orientation 6 or 8, where the requested width bounds
  the target height and the requested height the target width.
\<close>

theorem scale_mode_bounds:
  assumes "source = naturalSize this"
    and "\<not> js_lt (width req) (Num 0)" and "\<not> js_lt (height req) (Num 0)"
    and "target = getDistSize source req ''scale'' orientation"
  shows "js_le (scale_factor source req orientation) (Num 1) \<and>
    js_le (width target) (width source) \<and> js_le (height target) (height source) \<and>
    (if orientation = Num 6 \<or> orientation = Num 8
     then (truthy (width req) \<longrightarrow> js_le (height target) (js_ceiling (width req))) \<and>
          (truthy (height req) \<longrightarrow> js_le (width target) (js_ceiling (height req)))
     else (truthy (width req) \<longrightarrow> js_le (width target) (js_ceiling (width req))) \<and>
          (truthy (height req) \<longrightarrow> js_le (height target) (js_ceiling (height req))))"
proof -
  define sw where "sw = unat (naturalWidth this)"
  define sh where "sh = unat (naturalHeight this)"
  have sw32: "sw < 2 ^ 32" and sh32: "sh < 2 ^ 32"
    unfolding sw_def sh_def by (rule unat_32_bound)+
  have fit: "''scale'' \<noteq> ''fill''" by simp
  from scale_path [OF assms(2,3) fit, of this orientation]
  obtain s :: rat where nonneg: "0 \<le> s" and le1: "s \<le> 1"
    and sf: "scale_factor source req orientation = Num s"
    and res: "target = \<lparr>width = Num (of_int (round (round_double (of_nat sw * s)))),
       height = Num (of_int (round (round_double (of_nat sh * s))))\<rparr>"
    and s: "s = (if orientation = Num 6 \<or> orientation = Num 8
         then min (cand_rat (width req) sh) (min (cand_rat (height req) sw) 1)
         else min (cand_rat (width req) sw) (min (cand_rat (height req) sh) 1))"
    unfolding assms(1,4) sw_def sh_def by blast
  have box: "js_le (Num (of_int (round (round_double (of_nat n * s))))) (js_ceiling v)"
    if "\<not> js_lt v (Num 0)" and "truthy v" and "s \<le> cand_rat v n" and "n < 2 ^ 32" for v n
    using cand_bound [OF that(1,2) nonneg le1 that(3,4)] .
  have "js_le (scale_factor source req orientation) (Num 1)"
    using sf le1 by simp
  moreover have "js_le (width target) (width source)" "js_le (height target) (height source)"
    using round_scaled(3) [OF nonneg le1 sw32] round_scaled(3) [OF nonneg le1 sh32]
    by (simp_all add: res assms(1) naturalSize_def sw_def sh_def)
  moreover have "(if orientation = Num 6 \<or> orientation = Num 8
     then (truthy (width req) \<longrightarrow> js_le (height target) (js_ceiling (width req))) \<and>
          (truthy (height req) \<longrightarrow> js_le (width target) (js_ceiling (height req)))
     else (truthy (width req) \<longrightarrow> js_le (width target) (js_ceiling (width req))) \<and>
          (truthy (height req) \<longrightarrow> js_le (height target) (js_ceiling (height req))))"
  proof (cases "orientation = Num 6 \<or> orientation = Num 8")
    case True
    then have "s \<le> cand_rat (width req) sh" "s \<le> cand_rat (height req) sw"
      by (simp_all add: s min_le_iff_disj)
    with True box assms(2,3) sw32 sh32 show ?thesis
      by (simp add: res)
  next
    case False
    then have "s \<le> cand_rat (width req) sw" "s \<le> cand_rat (height req) sh"
      by (simp_all add: s min_le_iff_disj)
    with False box assms(2,3) sw32 sh32 show ?thesis
      by (simp add: res)
  qed
  ultimately show ?thesis by blast
qed

theorem scale_mode_bounds_witness:
  "js_le (scale_factor \<lparr>width = Num 800, height = Num 600\<rparr>
       \<lparr>width = Num 400, height = Num 0\<rparr> (Num 6)) (Num 1) \<and>
   js_le (width (getDistSize \<lparr>width = Num 800, height = Num 600\<rparr>
       \<lparr>width = Num 400, height = Num 0\<rparr> ''scale'' (Num 6))) (Num 800) \<and>
   js_le (height (getDistSize \<lparr>width = Num 800, height = Num 600\<rparr>
       \<lparr>width = Num 400, height = Num 0\<rparr> ''scale'' (Num 6))) (Num 400)"
  using scale_mode_bounds [where source = "\<lparr>width = Num 800, height = Num 600\<rparr>"
      and this = "\<lparr>naturalWidth = 800, naturalHeight = 600, exifOrientation = Num 6\<rparr>"
      and req = "\<lparr>width = Num 400, height = Num 0\<rparr>"
      and target = "getDistSize \<lparr>width = Num 800, height = Num 600\<rparr>
         \<lparr>width = Num 400, height = Num 0\<rparr> ''scale'' (Num 6)"
      and orientation = "Num 6"]
  by (simp add: naturalSize_def)

lemma floor_half: "\<lfloor>1 / 2 :: rat\<rfloor> = 0"
  by (simp add: floor_eq_iff)

text \<open>
  C7 as written fails in fill mode, which returns the requested numbers as they are: the
  request 1/2 by 10 passes the test of line 28 and gives a target width of 1/2.
\<close>

theorem target_dimensions_counterexample:
  "\<not> dims_rejected (Num (1/2)) (Num 10) \<and>
   getDistSize \<lparr>width = Num 800, height = Num 600\<rparr> \<lparr>width = Num (1/2), height = Num 10\<rparr>
     ''fill'' (Num 1) = \<lparr>width = Num (1/2), height = Num 10\<rparr> \<and>
   \<not> is_nonneg_int
     (width (getDistSize \<lparr>width = Num 800, height = Num 600\<rparr>
        \<lparr>width = Num (1/2), height = Num 10\<rparr> ''fill'' (Num 1)))"
  by (simp add: getDistSize_def dims_rejected_def is_nonneg_int_def floor_half double_eval)

text \<open>
  C7, amended. For a decoded image and a request that passes the test of line 28, for
  every orientation: with any fit other than fill the target dimensions are integers,
  zero or more; with fit fill they are the requested values, so they are such integers
  exactly when the requested dimensions are.
\<close>

theorem target_dimensions_integers:
  assumes "\<not> dims_rejected (width req) (height req)"
    and "target = getDistSize (naturalSize this) req fit orientation"
  shows "(fit \<noteq> ''fill'' \<longrightarrow> is_nonneg_int (width target) \<and> is_nonneg_int (height target)) \<and>
    (fit = ''fill'' \<longrightarrow>
       (is_nonneg_int (width target) \<and> is_nonneg_int (height target)) =
       (is_nonneg_int (width req) \<and> is_nonneg_int (height req)))"
proof (cases "fit = ''fill''")
  case True
  with assms(2) show ?thesis
    by (auto simp: getDistSize_def)
next
  case False
  from assms(1) have nonneg: "\<not> js_lt (width req) (Num 0)" "\<not> js_lt (height req) (Num 0)"
    by (simp_all add: dims_rejected_def)
  from scale_path [OF nonneg False, of this orientation]
  obtain s :: rat where s0: "0 \<le> s" and le1: "s \<le> 1"
    and res: "target =
      \<lparr>width = Num (of_int (round (round_double (of_nat (unat (naturalWidth this)) * s)))),
       height = Num (of_int (round (round_double (of_nat (unat (naturalHeight this)) * s))))\<rparr>"
    unfolding assms(2) by blast
  from round_scaled(1) [OF s0 le1 unat_32_bound]
  have "is_nonneg_int (width target)" "is_nonneg_int (height target)"
    by (simp_all add: res is_nonneg_int_def)
  with False show ?thesis by simp
qed

theorem target_dimensions_integers_witness:
  "is_nonneg_int (width (getDistSize
       (naturalSize \<lparr>naturalWidth = 800, naturalHeight = 600, exifOrientation = Num 8\<rparr>)
       \<lparr>width = Num (1/2), height = Undefined\<rparr> ''scale'' (Num 8))) \<and>
   is_nonneg_int (height (getDistSize
       (naturalSize \<lparr>naturalWidth = 800, naturalHeight = 600, exifOrientation = Num 8\<rparr>)
       \<lparr>width = Num (1/2), height = Undefined\<rparr> ''scale'' (Num 8)))"
proof -
  have "\<not> dims_rejected (Num (1/2)) Undefined"
    by (simp add: dims_rejected_def)
  with target_dimensions_integers [where req = "\<lparr>width = Num (1/2), height = Undefined\<rparr>"
      and this = "\<lparr>naturalWidth = 800, naturalHeight = 600, exifOrientation = Num 8\<rparr>"
      and fit = "''scale''" and orientation = "Num 8"
      and target = "getDistSize
        (naturalSize \<lparr>naturalWidth = 800, naturalHeight = 600, exifOrientation = Num 8\<rparr>)
        \<lparr>width = Num (1/2), height = Undefined\<rparr> ''scale'' (Num 8)"]
  show ?thesis by simp
qed

section \<open>The renderer\<close>

text \<open>What the renderer does for the orientations its \<^verbatim>\<open>switch\<close> handles and for 1.\<close>

lemma compress_handled_orientations:
  "canvas_of (compress img w h type quality (Num 6)) =
     \<lparr>canvas_width = h, canvas_height = w,
      ctx = [Rotate (1/2), DrawImage img (Num 0) (js_neg h) w h]\<rparr>"
  "canvas_of (compress img w h type quality (Num 8)) =
     \<lparr>canvas_width = h, canvas_height = w,
      ctx = [Rotate (3/2), DrawImage img (js_neg w) (Num 0) w h]\<rparr>"
  "canvas_of (compress img w h type quality (Num 3)) =
     \<lparr>canvas_width = w, canvas_height = h,
      ctx = [Rotate 1, DrawImage img (js_neg w) (js_neg h) w h]\<rparr>"
  "orientation = Num 1 \<or> \<not> truthy orientation \<Longrightarrow>
   canvas_of (compress img w h type quality orientation) =
     \<lparr>canvas_width = w, canvas_height = h, ctx = [DrawImage img (Num 0) (Num 0) w h]\<rparr>"
  by (auto simp: compress_def)

text \<open>Every other truthy orientation reaches \<^verbatim>\<open>default: break\<close>: nothing is drawn.\<close>

lemma compress_unhandled_orientations:
  "truthy orientation \<Longrightarrow> orientation \<notin> {Num 1, Num 3, Num 6, Num 8} \<Longrightarrow>
   canvas_of (compress img w h type quality orientation) =
     \<lparr>canvas_width = w, canvas_height = h, ctx = []\<rparr>"
  by (auto simp: compress_def)

text \<open>
  C6. The claim holds for the orientations 6, 8, 3 and 1, and fails for an orientation
  the code does not recognise: with the EXIF orientation 2 the renderer encodes a canvas
  of 400 by 300 on which nothing was drawn, where the claim has the image drawn at
  \<open>(0, 0)\<close>.
\<close>

theorem unhandled_orientation_draws_nothing:
  "compress \<lparr>naturalWidth = 800, naturalHeight = 600, exifOrientation = Num 2\<rparr>
     (Num 400) (Num 300) ''jpg'' (to_double (92 / 100)) (Num 2) =
   ToDataURL \<lparr>canvas_width = Num 400, canvas_height = Num 300, ctx = []\<rparr>
     (Some ''image/jpeg'') (to_double (92 / 100))"
  by (simp add: compress_def types_def)

section \<open>The quality\<close>

text \<open>
  C9. The quality is never validated: a request that passes the checks with one quality
  passes them with every quality \<open>q\<close>, the promise is then fulfilled for every decoded
  image, and the quality that reaches the encoder is \<open>q\<close> when \<open>q\<close> is truthy and 0.92
  when it is falsy, the explicit 0 included.
\<close>

theorem quality_never_validated:
  assumes "pictureCompress options = Decoding c"
  shows "\<exists>c' r. pictureCompress (options\<lparr>opt_quality := q\<rparr>) = Decoding c' \<and>
           onload c' this = Fulfilled r \<and>
           quality_of (res_img r) = (if truthy q then q else to_double (92 / 100))"
  using assms
  by (auto simp: pictureCompress_def Let_def onload_def compress_def num_or_def
      split: option.splits if_splits)

theorem quality_never_validated_witness:
  "\<exists>c' r. pictureCompress \<lparr>opt_img = Some ''a.jpg'', opt_width = Num 400, opt_height = Num 0,
       opt_quality = Num 0, opt_fit = None, opt_type = None\<rparr> = Decoding c' \<and>
     onload c' \<lparr>naturalWidth = 800, naturalHeight = 600, exifOrientation = Undefined\<rparr>
       = Fulfilled r \<and>
     quality_of (res_img r) = to_double (92 / 100)"
proof -
  have "pictureCompress \<lparr>opt_img = Some ''a.jpg'', opt_width = Num 400, opt_height = Num 0,
       opt_quality = Num (1/2), opt_fit = None, opt_type = None\<rparr> =
     Decoding \<lparr>imgSrc = ''a.jpg'', var_width = Num 400, var_height = Num 0,
       var_type = ''jpg'', var_quality = Num (1/2), var_fit = ''scale''\<rparr>"
    by (simp add: pictureCompress_def Let_def dims_rejected_def regex_test_def num_or_def
        double_eval)
  from quality_never_validated [OF this, of "Num 0"
      "\<lparr>naturalWidth = 800, naturalHeight = 600, exifOrientation = Undefined\<rparr>"]
  show ?thesis by simp
qed

end
